theory Spec2Isabelle
  imports Main
begin

section \<open>Tokens, errors and the output tree\<close>

text \<open>
  Modelled from the spec: the token type and the lexer's recognisers live in
  \<^verbatim>\<open>EmphaticLexer.h\<close>, which is not part of the sources at hand. The spec (sections 3,
  4.1 and 6) gives a token as a kind and a lexeme, with five recognisers that are pure
  functions of the kind. Whitespace and comments never reach the parser.
\<close>

datatype token_kind = TokID | TokNumber | TokString | TokPP | TokSymbol

record token =
  token_id :: token_kind
  lexeme :: string

definition lexer_IsID :: "token \<Rightarrow> bool" where
  "lexer_IsID t = (token_id t = TokID)"

definition lexer_IsNumber :: "token \<Rightarrow> bool" where
  "lexer_IsNumber t = (token_id t = TokNumber)"

definition lexer_IsString :: "token \<Rightarrow> bool" where
  "lexer_IsString t = (token_id t = TokString)"

definition lexer_IsPP :: "token \<Rightarrow> bool" where
  "lexer_IsPP t = (token_id t = TokPP)"

definition lexer_IsSymbol :: "token \<Rightarrow> bool" where
  "lexer_IsSymbol t = (token_id t = TokSymbol)"

text \<open>
  The ways a run of the parser ends other than by returning: \<^verbatim>\<open>Error(pos, msg)\<close> prints
  the token index and the message and calls \<^verbatim>\<open>exit(1)\<close>; \<^verbatim>\<open>tokens[pos]\<close> with
  \<^verbatim>\<open>pos\<close> not below \<^verbatim>\<open>tokens.size()\<close> reads outside the vector; \<^verbatim>\<open>emp_assert\<close> stops
  the run when its condition is false.
\<close>

datatype error = Fatal int string | OutOfRange nat | AssertFailed

text \<open>
  Modelled from the spec: \<^verbatim>\<open>AST.h\<close> is not part of the sources at hand. The fields are
  those that \<^verbatim>\<open>Emphatic.h\<close> assigns, with the types of section 3 of the spec; every text
  field starts empty and every collection starts empty.
\<close>

record ParamInfo =
  type_name :: string
  identifier_name :: string

record ElementInfo =
  el_name :: string
  el_type :: string
  params :: "ParamInfo list"
  attributes :: "string set"
  default_code :: string
  special_value :: string

definition new_ElementInfo :: ElementInfo where
  "new_ElementInfo = \<lparr>el_name = [], el_type = [], params = [], attributes = {},
     default_code = [], special_value = []\<rparr>"

record AST_Concept =
  name :: string
  base_name :: string
  typedefs :: "ElementInfo list"
  variables :: "ElementInfo list"
  functions' :: "ElementInfo list"

definition new_AST_Concept :: AST_Concept where
  "new_AST_Concept = \<lparr>name = [], base_name = [], typedefs = [], variables = [],
     functions' = []\<rparr>"

text \<open>
  A scope is the ordered list of its children. The fields of a class node are its
  keyword (\<^verbatim>\<open>type\<close>), its name and its body; those of a using node its name and its
  type; a namespace node has its name and the children of its scope.
\<close>

datatype AST_Node =
    AST_PP string
  | AST_Class string string string
  | AST_Namespace string "AST_Node list"
  | AST_Using string string
  | AST_Concept_Node AST_Concept

section \<open>Helper functions\<close>

text \<open>
  The helpers take an \<^verbatim>\<open>int\<close>; the scanners hold the cursor in a \<^verbatim>\<open>size_t\<close> and pass
  it down. Both are modelled without a width: the narrowing is the identity as long as the
  token count stays below \<open>2^31\<close>.
\<close>

definition HasToken :: "token list \<Rightarrow> int \<Rightarrow> bool" where
  "HasToken tokens pos = (pos \<ge> 0 \<and> pos < int (length tokens))"

definition IsID :: "token list \<Rightarrow> int \<Rightarrow> bool" where
  "IsID tokens pos = (HasToken tokens pos \<and> lexer_IsID (tokens ! nat pos))"

definition IsNumber :: "token list \<Rightarrow> int \<Rightarrow> bool" where
  "IsNumber tokens pos = (HasToken tokens pos \<and> lexer_IsNumber (tokens ! nat pos))"

definition IsString :: "token list \<Rightarrow> int \<Rightarrow> bool" where
  "IsString tokens pos = (HasToken tokens pos \<and> lexer_IsString (tokens ! nat pos))"

definition IsPP :: "token list \<Rightarrow> int \<Rightarrow> bool" where
  "IsPP tokens pos = (HasToken tokens pos \<and> lexer_IsPP (tokens ! nat pos))"

text \<open>\<^verbatim>\<open>lexeme[0]\<close> of an empty \<^verbatim>\<open>std::string\<close> is the terminating null character.\<close>

definition AsChar :: "token list \<Rightarrow> int \<Rightarrow> char" where
  "AsChar tokens pos =
     (if HasToken tokens pos \<and> lexer_IsSymbol (tokens ! nat pos)
      then (case lexeme (tokens ! nat pos) of [] \<Rightarrow> CHR 0x00 | c # _ \<Rightarrow> c)
      else CHR 0x00)"

definition AsLexeme :: "token list \<Rightarrow> int \<Rightarrow> string" where
  "AsLexeme tokens pos = (if HasToken tokens pos then lexeme (tokens ! nat pos) else [])"

text \<open>The \<^verbatim>\<open>for\<close> loop of \<^verbatim>\<open>ConcatLexemes\<close>, with the stream as accumulator.\<close>

function ConcatLexemes_loop :: "token list \<Rightarrow> nat \<Rightarrow> nat \<Rightarrow> nat \<Rightarrow> string \<Rightarrow> string" where
  "ConcatLexemes_loop tokens start_pos end_pos i ss =
     (if i < end_pos
      then ConcatLexemes_loop tokens start_pos end_pos (i + 1)
             ((if i > start_pos then ss @ '' '' else ss) @ lexeme (tokens ! i))
      else ss)"
  by pat_completeness auto
termination
  by (relation "measure (\<lambda>(tokens, start_pos, end_pos, i, ss). end_pos - i)") auto

definition ConcatLexemes :: "token list \<Rightarrow> nat \<Rightarrow> nat \<Rightarrow> error + string" where
  "ConcatLexemes tokens start_pos end_pos =
     (if start_pos \<le> end_pos
      then (if end_pos \<le> length tokens
            then Inr (ConcatLexemes_loop tokens start_pos end_pos start_pos [])
            else Inl AssertFailed)
      else Inl AssertFailed)"

section \<open>The bracket-aware scanner\<close>

text \<open>
  The \<^verbatim>\<open>while\<close> loop of \<^verbatim>\<open>ProcessCode\<close>: its state is the cursor, the vector of open
  symbols and the flag \<^verbatim>\<open>finished\<close>; its value is the cursor when the loop ends. The
  branches are those of the \<^verbatim>\<open>switch\<close>, fall-through included.
\<close>

function ProcessCode_loop ::
  "token list \<Rightarrow> bool \<Rightarrow> bool \<Rightarrow> nat \<Rightarrow> char list \<Rightarrow> bool \<Rightarrow> nat" where
  "ProcessCode_loop tokens match_angle_bracket multi_line pos open_symbols finished =
     (if \<not> finished \<and> pos < length tokens then
        (let cur_char = AsChar tokens (int pos); pos = pos + 1 in
         if cur_char = CHR '';'' then
           ProcessCode_loop tokens match_angle_bracket multi_line pos open_symbols
             (if multi_line = False then True else finished)
         else if cur_char = CHR ''<'' \<and> match_angle_bracket = False then
           ProcessCode_loop tokens match_angle_bracket multi_line pos open_symbols finished
         else if cur_char = CHR ''<'' \<or> cur_char = CHR ''('' \<or> cur_char = CHR ''[''
                 \<or> cur_char = CHR ''{'' then
           ProcessCode_loop tokens match_angle_bracket multi_line pos
             (open_symbols @ [cur_char]) finished
         else if cur_char = CHR ''>'' \<and> match_angle_bracket = False then
           ProcessCode_loop tokens match_angle_bracket multi_line pos open_symbols finished
         else if cur_char = CHR ''>'' \<or> cur_char = CHR '')'' \<or> cur_char = CHR '']''
                 \<or> cur_char = CHR ''}'' then
           (if length open_symbols \<noteq> 0 then
              ProcessCode_loop tokens match_angle_bracket multi_line pos
                (butlast open_symbols) finished
            else
              ProcessCode_loop tokens match_angle_bracket multi_line (pos - 1)
                open_symbols True)
         else
           ProcessCode_loop tokens match_angle_bracket multi_line pos open_symbols finished)
      else pos)"
  by pat_completeness auto
termination
  by (relation "measure (\<lambda>(tokens, mab, mline, pos, open_symbols, finished).
        if finished then 0 else Suc (length tokens - pos))") auto

definition ProcessCode :: "token list \<Rightarrow> nat \<Rightarrow> bool \<Rightarrow> bool \<Rightarrow> error + (string \<times> nat)" where
  "ProcessCode tokens pos match_angle_bracket multi_line =
     (let start_pos = pos;
          pos = ProcessCode_loop tokens match_angle_bracket multi_line pos [] False
      in case ConcatLexemes tokens start_pos pos of
           Inl e \<Rightarrow> Inl e
         | Inr text \<Rightarrow> Inr (text, pos))"

text \<open>
  The loops are unfolded by hand in the proofs, one turn at a time, never by the
  simplifier on its own.
\<close>

declare ProcessCode_loop.simps [simp del]
declare ConcatLexemes_loop.simps [simp del]

text \<open>
  When \<^verbatim>\<open>ProcessCode\<close> returns, the cursor has not moved back and is inside the sequence:
  the assertions of \<^verbatim>\<open>ConcatLexemes\<close> say so.
\<close>

lemma ProcessCode_Inr_bounds:
  "ProcessCode tokens pos mab multi_line = Inr (text, q) \<Longrightarrow> pos \<le> q \<and> q \<le> length tokens"
  by (auto simp: ProcessCode_def ConcatLexemes_def Let_def split: if_splits sum.splits)

section \<open>The type scanner\<close>

text \<open>
  The \<^verbatim>\<open>while (need_id)\<close> loop of \<^verbatim>\<open>ProcessType\<close>; its value is the cursor when the loop
  ends. The argument of \<^verbatim>\<open>RequireID\<close> is built before the call, so
  \<^verbatim>\<open>tokens[pos].lexeme\<close> is read whether or not the token is an identifier: at a cursor
  outside the sequence that read is out of range. The call \<^verbatim>\<open>ProcessCode(++pos, true)\<close>
  leaves \<^verbatim>\<open>multi_line\<close> at its default.
\<close>

function ProcessType_loop :: "token list \<Rightarrow> nat \<Rightarrow> error + nat" where
  "ProcessType_loop tokens pos =
     (let pos = (if AsLexeme tokens (int pos) = ''typename'' then pos + 1 else pos);
          pos = (if AsLexeme tokens (int pos) = ''template'' then pos + 1 else pos)
      in if pos < length tokens then
           (if IsID tokens (int pos) then
              (let pos = pos + 1 in
               case (if AsLexeme tokens (int pos) = ''<'' then
                       (case ProcessCode tokens (pos + 1) True False of
                          Inl e \<Rightarrow> Inl e
                        | Inr (text, pos) \<Rightarrow>
                            if AsChar tokens (int pos) \<noteq> CHR ''>''
                            then Inl (Fatal (int pos)
                                   ''Templates must end in a close angle bracket.'')
                            else Inr (pos + 1))
                     else Inr pos) of
                 Inl e \<Rightarrow> Inl e
               | Inr pos \<Rightarrow>
                   if AsLexeme tokens (int pos) = ''::''
                   then ProcessType_loop tokens (pos + 1)
                   else Inr pos)
            else Inl (Fatal (int pos)
                   (''Expecting type, but found '' @ [CHR 0x27] @ lexeme (tokens ! pos)
                    @ [CHR 0x27] @ ''.'')))
         else Inl (OutOfRange pos))"
  by pat_completeness auto
termination
proof (relation "measure (\<lambda>(tokens, pos). length tokens - pos)", goal_cases)
  case 1
  show ?case by simp
next
  case (2 tokens pos x xa xb xc)
  then show ?case
    by (auto split: if_splits sum.splits prod.splits dest!: ProcessCode_Inr_bounds)
qed

declare ProcessType_loop.simps [simp del]

lemma IsID_HasToken: "IsID tokens i \<Longrightarrow> 0 \<le> i \<and> i < int (length tokens)"
  by (simp add: IsID_def HasToken_def)

lemma ProcessType_loop_advances:
  "ProcessType_loop tokens pos = Inr q \<Longrightarrow> pos < q"
proof (induction "length tokens - pos" arbitrary: pos q rule: less_induct)
  case less
  have IH: "\<And>p q'. ProcessType_loop tokens p = Inr q' \<Longrightarrow> pos < p \<Longrightarrow> pos < length tokens
               \<Longrightarrow> pos < q'"
  proof -
    fix p q' assume a: "ProcessType_loop tokens p = Inr q'" "pos < p" "pos < length tokens"
    then have "length tokens - p < length tokens - pos" by arith
    from less.hyps [OF this a(1)] a(2) show "pos < q'" by simp
  qed
  from less.prems show ?case
    apply (subst (asm) ProcessType_loop.simps)
    apply (auto simp: Let_def split: if_splits sum.splits prod.splits
                dest!: ProcessCode_Inr_bounds IsID_HasToken intro: IH)
    done
qed

text \<open>\<^verbatim>\<open>ProcessType\<close>: an optional \<^verbatim>\<open>const\<close>, the loop, an optional \<^verbatim>\<open>&\<close> and \<^verbatim>\<open>*\<close>.\<close>

definition ProcessType :: "token list \<Rightarrow> nat \<Rightarrow> error + (string \<times> nat)" where
  "ProcessType tokens pos =
     (let start_pos = pos;
          pos = (if AsLexeme tokens (int pos) = ''const'' then pos + 1 else pos)
      in case ProcessType_loop tokens pos of
           Inl e \<Rightarrow> Inl e
         | Inr pos \<Rightarrow>
             (let pos = (if AsLexeme tokens (int pos) = ''&'' then pos + 1 else pos);
                  pos = (if AsLexeme tokens (int pos) = ''*'' then pos + 1 else pos)
              in case ConcatLexemes tokens start_pos pos of
                   Inl e \<Rightarrow> Inl e
                 | Inr text \<Rightarrow> Inr (text, pos)))"

lemma ProcessType_advances:
  "ProcessType tokens pos = Inr (text, q) \<Longrightarrow> pos < q \<and> q \<le> length tokens"
  by (auto simp: ProcessType_def Let_def ConcatLexemes_def split: if_splits sum.splits
           dest!: ProcessType_loop_advances)

section \<open>Parameters and identifier lists\<close>

text \<open>
  The \<^verbatim>\<open>while\<close> loop of \<^verbatim>\<open>ProcessParams\<close>, with the vector of parameters as
  accumulator. The identifier is read only after \<^verbatim>\<open>IsID\<close> has held.
\<close>

function ProcessParams_loop ::
  "token list \<Rightarrow> nat \<Rightarrow> ParamInfo list \<Rightarrow> error + (ParamInfo list \<times> nat)" where
  "ProcessParams_loop tokens pos ps =
     (if AsChar tokens (int pos) \<noteq> CHR '')'' then
        (case (if length ps \<noteq> 0 then
                 (if AsChar tokens (int pos) \<noteq> CHR '','' 
                  then Inl (Fatal (int pos) ''Parameters must be separated by commas.'')
                  else Inr (pos + 1))
               else Inr pos) of
           Inl e \<Rightarrow> Inl e
         | Inr pos \<Rightarrow>
             (case ProcessType tokens pos of
                Inl e \<Rightarrow> Inl e
              | Inr (type_text, pos) \<Rightarrow>
                  (let (id_text, pos) =
                         (if IsID tokens (int pos) then (lexeme (tokens ! pos), pos + 1)
                          else ([], pos))
                   in ProcessParams_loop tokens pos
                        (ps @ [\<lparr>type_name = type_text, identifier_name = id_text\<rparr>]))))
      else Inr (ps, pos))"
  by pat_completeness auto
termination
proof (relation "measure (\<lambda>(tokens, pos, ps). length tokens - pos)", goal_cases)
  case 1
  show ?case by simp
next
  case (2 tokens pos ps x2 x2a x y xa ya)
  then show ?case
    by (auto split: if_splits dest!: ProcessType_advances)
qed

definition ProcessParams :: "token list \<Rightarrow> nat \<Rightarrow> error + (ParamInfo list \<times> nat)" where
  "ProcessParams tokens pos = ProcessParams_loop tokens pos []"

text \<open>The \<^verbatim>\<open>while\<close> loop of \<^verbatim>\<open>ProcessIDList\<close>, with the set of identifiers as accumulator.\<close>

function ProcessIDList_loop :: "token list \<Rightarrow> nat \<Rightarrow> string set \<Rightarrow> string set \<times> nat" where
  "ProcessIDList_loop tokens pos ids =
     (if IsID tokens (int pos)
      then ProcessIDList_loop tokens (pos + 1) (insert (AsLexeme tokens (int pos)) ids)
      else (ids, pos))"
  by pat_completeness auto
termination
  by (relation "measure (\<lambda>(tokens, pos, ids). length tokens - pos)")
     (auto dest!: IsID_HasToken)

definition ProcessIDList :: "token list \<Rightarrow> nat \<Rightarrow> string set \<times> nat" where
  "ProcessIDList tokens pos = ProcessIDList_loop tokens pos {}"

declare ProcessParams_loop.simps [simp del]
declare ProcessIDList_loop.simps [simp del]

section \<open>Concepts\<close>

text \<open>
  The end of a function member in \<^verbatim>\<open>ProcessConcept\<close> (from \<^verbatim>\<open>char fun_char = AsChar(pos++)\<close>
  to the \<^verbatim>\<open>else\<close> that reports a wrong beginning of the body): an assignment of
  \<^verbatim>\<open>required\<close> or \<^verbatim>\<open>default\<close>, or a body in braces scanned with \<^verbatim>\<open>multi_line\<close> set.
\<close>

definition ProcessConcept_function_tail ::
  "token list \<Rightarrow> nat \<Rightarrow> ElementInfo \<Rightarrow> error + (ElementInfo \<times> nat)" where
  "ProcessConcept_function_tail tokens pos new_element =
     (let fun_char = AsChar tokens (int pos); pos = pos + 1 in
      if fun_char = CHR ''='' then
        (if IsID tokens (int pos) then
           (let fun_assign = AsLexeme tokens (int pos); pos = pos + 1 in
            if fun_assign = ''required'' \<or> fun_assign = ''default'' then
              (let new_element = new_element\<lparr>special_value := fun_assign\<rparr> in
               if AsChar tokens (int pos) \<noteq> CHR '';''
               then Inl (Fatal (int pos) (fun_assign @ ''functions must end in a semi-colon.''))
               else Inr (new_element, pos + 1))
            else Inl (Fatal (int pos)
                   (''Functions can only be set to 'required' or '' @ [CHR 0x27] @ ''default''
                    @ [CHR 0x27])))
         else Inl (Fatal (int pos)
                (''Function must be assigned to 'required' or '' @ [CHR 0x27] @ ''default''
                 @ [CHR 0x27])))
      else if fun_char = CHR ''{'' then
        (case ProcessCode tokens pos False True of
           Inl e \<Rightarrow> Inl e
         | Inr (code, pos) \<Rightarrow>
             (let new_element = new_element\<lparr>default_code := code\<rparr> in
              if AsChar tokens (int pos) \<noteq> CHR ''}''
              then Inl (Fatal (int pos)
                     (''Function body must end with close brace ('}') not '' @ [CHR 0x27]
                      @ AsLexeme tokens (int pos) @ [CHR 0x27] @ ''.''))
              else Inr (new_element, pos + 1)))
      else Inl (Fatal (int pos - 1)
             ''Function body must begin with open brace or assignment ('{' or '=')''))"

text \<open>
  The body of the \<^verbatim>\<open>while\<close> loop of \<^verbatim>\<open>ProcessConcept\<close>: one member, a using statement,
  a function or a variable, pushed at the back of the collection of its kind. The lexeme
  \<^verbatim>\<open>tokens[pos].lexeme\<close> is read only after \<^verbatim>\<open>RequireID\<close> has passed.
\<close>

definition ProcessConcept_member ::
  "token list \<Rightarrow> nat \<Rightarrow> AST_Concept \<Rightarrow> error + (AST_Concept \<times> nat)" where
  "ProcessConcept_member tokens pos concept =
     (if IsID tokens (int pos) then
        (let new_element = new_ElementInfo in
         if lexeme (tokens ! pos) = ''using'' then
           (let pos = pos + 1 in
            if IsID tokens (int pos) then
              (case ProcessType tokens pos of
                 Inl e \<Rightarrow> Inl e
               | Inr (type_text, pos) \<Rightarrow>
                   (let new_element = new_element\<lparr>el_name := type_text\<rparr> in
                    if AsChar tokens (int pos) \<noteq> CHR ''=''
                    then Inl (Fatal (int pos)
                      ''A using statement must provide an equals ('=') to assign the type.'')
                    else
                      (case ProcessCode tokens (pos + 1) False False of
                         Inl e \<Rightarrow> Inl e
                       | Inr (code, pos) \<Rightarrow>
                           (let new_element = new_element\<lparr>el_type := code\<rparr> in
                            Inr (concept\<lparr>typedefs := typedefs concept @ [new_element]\<rparr>,
                                 pos)))))
            else Inl (Fatal (int pos)
                   ''A 'using' command must first specify the new type name.''))
         else
           (case ProcessType tokens pos of
              Inl e \<Rightarrow> Inl e
            | Inr (type_text, pos) \<Rightarrow>
                (let new_element = new_element\<lparr>el_type := type_text\<rparr> in
                 if IsID tokens (int pos) then
                   (let new_element = new_element\<lparr>el_name := lexeme (tokens ! pos)\<rparr>;
                        pos = pos + 1
                    in if AsChar tokens (int pos) = CHR ''('' then
                         (let pos = pos + 1 in
                          case ProcessParams tokens pos of
                            Inl e \<Rightarrow> Inl e
                          | Inr (ps, pos) \<Rightarrow>
                              (let new_element = new_element\<lparr>params := ps\<rparr> in
                               if AsChar tokens (int pos) \<noteq> CHR '')''
                               then Inl (Fatal (int pos)
                                 ''Function arguments must end with a close-parenthesis (')')'')
                               else
                                 (let (ids, pos) = ProcessIDList tokens (pos + 1);
                                      new_element = new_element\<lparr>attributes := ids\<rparr>
                                  in case ProcessConcept_function_tail tokens pos new_element of
                                       Inl e \<Rightarrow> Inl e
                                     | Inr (new_element, pos) \<Rightarrow>
                                         Inr (concept\<lparr>functions' :=
                                                functions' concept @ [new_element]\<rparr>, pos))))
                       else
                         (if AsChar tokens (int pos) = CHR '';'' then
                            Inr (concept\<lparr>variables := variables concept @ [new_element]\<rparr>,
                                 pos + 1)
                          else
                            (case ProcessCode tokens pos False False of
                               Inl e \<Rightarrow> Inl e
                             | Inr (code, pos) \<Rightarrow>
                                 (let new_element = new_element\<lparr>default_code := code\<rparr> in
                                  Inr (concept\<lparr>variables :=
                                         variables concept @ [new_element]\<rparr>, pos)))))
                 else Inl (Fatal (int pos)
                   ''Functions and variables in concept definition must provide identifier after type name.''))))
      else Inl (Fatal (int pos)
             ''Concept members can be either functions, variables, or using-statements.''))"

lemma ProcessIDList_loop_mono: "ProcessIDList_loop tokens pos ids = (ids', q) \<Longrightarrow> pos \<le> q"
proof (induction tokens pos ids rule: ProcessIDList_loop.induct)
  case (1 tokens pos ids)
  then show ?case
    by (subst (asm) (2) ProcessIDList_loop.simps) (auto split: if_splits)
qed

lemma ProcessParams_loop_mono:
  "ProcessParams_loop tokens pos ps = Inr (ps', q) \<Longrightarrow> pos \<le> q"
proof (induction "length tokens - pos" arbitrary: pos ps rule: less_induct)
  case less
  have IH: "\<And>p qs. ProcessParams_loop tokens p qs = Inr (ps', q) \<Longrightarrow> pos < p \<Longrightarrow>
              pos < length tokens \<Longrightarrow> pos \<le> q"
  proof -
    fix p qs assume a: "ProcessParams_loop tokens p qs = Inr (ps', q)" "pos < p" "pos < length tokens"
    then have "length tokens - p < length tokens - pos" by arith
    from less.hyps [OF this a(1)] a(2) show "pos \<le> q" by simp
  qed
  from less.prems show ?case
    apply (subst (asm) ProcessParams_loop.simps)
    apply (auto simp: Let_def split: if_splits sum.splits prod.splits
                dest!: ProcessType_advances IsID_HasToken intro: IH)
    done
qed

lemma ProcessConcept_function_tail_advances:
  "ProcessConcept_function_tail tokens pos el = Inr (el', q) \<Longrightarrow> pos < q"
  by (auto simp: ProcessConcept_function_tail_def Let_def split: if_splits sum.splits prod.splits
           dest!: ProcessCode_Inr_bounds)

lemma ProcessConcept_member_advances:
  "ProcessConcept_member tokens pos c = Inr (c', q) \<Longrightarrow> pos < q \<and> pos < length tokens"
  unfolding ProcessConcept_member_def ProcessParams_def ProcessIDList_def
  by (auto simp: Let_def split: if_splits sum.splits prod.splits
           dest!: ProcessCode_Inr_bounds ProcessType_advances IsID_HasToken
                  ProcessParams_loop_mono ProcessIDList_loop_mono
                  ProcessConcept_function_tail_advances)

text \<open>The \<^verbatim>\<open>while\<close> loop of \<^verbatim>\<open>ProcessConcept\<close>: members until a closing brace.\<close>

function ProcessConcept_loop ::
  "token list \<Rightarrow> nat \<Rightarrow> AST_Concept \<Rightarrow> error + (AST_Concept \<times> nat)" where
  "ProcessConcept_loop tokens pos concept =
     (if AsChar tokens (int pos) \<noteq> CHR ''}'' then
        (case ProcessConcept_member tokens pos concept of
           Inl e \<Rightarrow> Inl e
         | Inr (concept, pos) \<Rightarrow> ProcessConcept_loop tokens pos concept)
      else Inr (concept, pos))"
  by pat_completeness auto
termination
  by (relation "measure (\<lambda>(tokens, pos, concept). length tokens - pos)")
     (auto dest!: ProcessConcept_member_advances)

declare ProcessConcept_loop.simps [simp del]

text \<open>
  \<^verbatim>\<open>ProcessConcept\<close>: the name, a colon, the name of the base class, an opening brace, the
  members, the closing brace (skipped without a check: the loop ended on it) and a
  semicolon. The node is returned to the caller, who appends it to the scope.
\<close>

definition ProcessConcept :: "token list \<Rightarrow> nat \<Rightarrow> error + (AST_Concept \<times> nat)" where
  "ProcessConcept tokens pos =
     (let concept = new_AST_Concept in
      if IsID tokens (int pos) then
        (let concept = concept\<lparr>name := lexeme (tokens ! pos)\<rparr>; pos = pos + 1 in
         if AsChar tokens (int pos) \<noteq> CHR '':''
         then Inl (Fatal (int pos) ''Concept names must be followed by a colon (':').'')
         else
           (let pos = pos + 1 in
            if IsID tokens (int pos) then
              (let concept = concept\<lparr>base_name := lexeme (tokens ! pos)\<rparr>; pos = pos + 1 in
               if AsChar tokens (int pos) \<noteq> CHR ''{''
               then Inl (Fatal (int pos)
                      ''Concepts must be defined in braces ('{' and '}').'')
               else
                 (case ProcessConcept_loop tokens (pos + 1) concept of
                    Inl e \<Rightarrow> Inl e
                  | Inr (concept, pos) \<Rightarrow>
                      (let pos = pos + 1 in
                       if AsChar tokens (int pos) \<noteq> CHR '';''
                       then Inl (Fatal (int pos)
                              ''Concept definitions must end in a semi-colon.'')
                       else Inr (concept, pos + 1))))
            else Inl (Fatal (int pos)
                   ''Concept declaration must include name of base class.'')))
      else Inl (Fatal (int pos)
             ''Concept declaration must be followed by name identifier.''))"

section \<open>The outer scope\<close>

text \<open>
  The \<^verbatim>\<open>struct\<close>/\<^verbatim>\<open>class\<close> branch and the \<^verbatim>\<open>using\<close> branch of \<^verbatim>\<open>ProcessTop\<close>, after
  the keyword has been consumed.
\<close>

definition ProcessTop_class ::
  "token list \<Rightarrow> nat \<Rightarrow> string \<Rightarrow> error + (AST_Node \<times> nat)" where
  "ProcessTop_class tokens pos cur_lexeme =
     (let (class_name, pos) =
            (if IsID tokens (int pos) then (AsLexeme tokens (int pos), pos + 1) else ([], pos))
      in if AsChar tokens (int pos) \<noteq> CHR ''{''
         then Inl (Fatal (int pos)
                (''A '' @ cur_lexeme @ '' must be defined in braces ('{' and '}').''))
         else
           (case ProcessCode tokens (pos + 1) False True of
              Inl e \<Rightarrow> Inl e
            | Inr (body, pos) \<Rightarrow>
                if AsChar tokens (int pos) \<noteq> CHR ''}''
                then Inl (Fatal (int pos)
                       (''The end of a '' @ cur_lexeme @ '' must have a close brace ('}').''))
                else
                  (let pos = pos + 1 in
                   if AsChar tokens (int pos) \<noteq> CHR '';''
                   then Inl (Fatal (int pos)
                          (''A '' @ cur_lexeme @ '' must end with a semi-colon (';').''))
                   else Inr (AST_Class cur_lexeme class_name body, pos + 1))))"

definition ProcessTop_using :: "token list \<Rightarrow> nat \<Rightarrow> error + (AST_Node \<times> nat)" where
  "ProcessTop_using tokens pos =
     (if IsID tokens (int pos) then
        (case ProcessType tokens pos of
           Inl e \<Rightarrow> Inl e
         | Inr (type_text, pos) \<Rightarrow>
             if AsChar tokens (int pos) \<noteq> CHR ''=''
             then Inl (Fatal (int pos)
                    ''A using statement must provide an equals ('=') to assign the type.'')
             else
               (case ProcessCode tokens (pos + 1) False False of
                  Inl e \<Rightarrow> Inl e
                | Inr (code, pos) \<Rightarrow> Inr (AST_Using type_text code, pos)))
      else Inl (Fatal (int pos) ''A 'using' command must first specify the new type name.''))"

lemma ProcessConcept_loop_mono:
  "ProcessConcept_loop tokens pos c = Inr (c', q) \<Longrightarrow> pos \<le> q"
proof (induction "length tokens - pos" arbitrary: pos c rule: less_induct)
  case less
  have IH: "\<And>p c1. ProcessConcept_loop tokens p c1 = Inr (c', q) \<Longrightarrow> pos < p \<Longrightarrow>
              pos < length tokens \<Longrightarrow> pos \<le> q"
  proof -
    fix p c1 assume a: "ProcessConcept_loop tokens p c1 = Inr (c', q)" "pos < p" "pos < length tokens"
    then have "length tokens - p < length tokens - pos" by arith
    from less.hyps [OF this a(1)] a(2) show "pos \<le> q" by simp
  qed
  from less.prems show ?case
    apply (subst (asm) ProcessConcept_loop.simps)
    apply (auto simp: Let_def split: if_splits sum.splits prod.splits
                dest!: ProcessConcept_member_advances intro: IH)
    done
qed

lemma ProcessConcept_mono: "ProcessConcept tokens pos = Inr (c, q) \<Longrightarrow> pos \<le> q"
  by (auto simp: ProcessConcept_def Let_def split: if_splits sum.splits prod.splits
           dest!: ProcessConcept_loop_mono)

lemma ProcessTop_class_mono: "ProcessTop_class tokens pos kw = Inr (n, q) \<Longrightarrow> pos \<le> q"
  by (auto simp: ProcessTop_class_def Let_def split: if_splits sum.splits prod.splits
           dest!: ProcessCode_Inr_bounds)

lemma ProcessTop_using_mono: "ProcessTop_using tokens pos = Inr (n, q) \<Longrightarrow> pos \<le> q"
  by (auto simp: ProcessTop_using_def Let_def split: if_splits sum.splits prod.splits
           dest!: ProcessCode_Inr_bounds ProcessType_advances)

text \<open>
  \<^verbatim>\<open>ProcessTop\<close>: the \<^verbatim>\<open>while\<close> loop over the statements of a scope, with the children of
  the scope as accumulator; a namespace calls it again for its own scope and goes on after
  the closing brace.
\<close>

function ProcessTop ::
  "token list \<Rightarrow> nat \<Rightarrow> AST_Node list \<Rightarrow> error + (nat \<times> AST_Node list)" where
  "ProcessTop tokens pos cur_scope =
     (if pos < length tokens \<and> AsChar tokens (int pos) \<noteq> CHR ''}'' then
        (if IsPP tokens (int pos) then
           ProcessTop tokens (pos + 1)
             (cur_scope @ [AST_PP (AsLexeme tokens (int pos) @ [CHR 0x0A])])
         else if IsID tokens (int pos) then
           (let cur_lexeme = AsLexeme tokens (int pos); pos = pos + 1 in
            if cur_lexeme = ''concept'' then
              (case ProcessConcept tokens pos of
                 Inl e \<Rightarrow> Inl e
               | Inr (concept, pos) \<Rightarrow>
                   ProcessTop tokens pos (cur_scope @ [AST_Concept_Node concept]))
            else if cur_lexeme = ''struct'' \<or> cur_lexeme = ''class'' then
              (case ProcessTop_class tokens pos cur_lexeme of
                 Inl e \<Rightarrow> Inl e
               | Inr (new_class, pos) \<Rightarrow> ProcessTop tokens pos (cur_scope @ [new_class]))
            else if cur_lexeme = ''namespace'' then
              (let (ns_name, pos) =
                     (if IsID tokens (int pos) then (AsLexeme tokens (int pos), pos + 1)
                      else ([], pos))
               in if AsChar tokens (int pos) \<noteq> CHR ''{''
                  then Inl (Fatal (int pos)
                         (''A '' @ cur_lexeme @ '' must be defined in braces ('{' and '}').''))
                  else
                    (case ProcessTop tokens (pos + 1) [] of
                       Inl e \<Rightarrow> Inl e
                     | Inr (pos, new_ns) \<Rightarrow>
                         if AsChar tokens (int pos) \<noteq> CHR ''}''
                         then Inl (Fatal (int pos)
                                (''The end of a '' @ cur_lexeme
                                 @ '' must have a close brace ('}').''))
                         else ProcessTop tokens (pos + 1)
                                (cur_scope @ [AST_Namespace ns_name new_ns])))
            else if cur_lexeme = ''using'' then
              (case ProcessTop_using tokens pos of
                 Inl e \<Rightarrow> Inl e
               | Inr (new_using, pos) \<Rightarrow> ProcessTop tokens pos (cur_scope @ [new_using]))
            else Inl (Fatal (int pos - 1)
                   (''Unknown keyword '' @ [CHR 0x27] @ cur_lexeme @ [CHR 0x27]
                    @ ''.  Aborting.'')))
         else Inl (Fatal (int pos)
                (''Statements in outer scope must begin with an identifier or keyword.  (Found: ''
                 @ AsLexeme tokens (int pos) @ '').'')))
      else Inr (pos, cur_scope))"
  by pat_completeness auto

lemma ProcessTop_mono:
  "ProcessTop_dom (tokens, pos, cur_scope) \<Longrightarrow> ProcessTop tokens pos cur_scope = Inr (q, s)
   \<Longrightarrow> pos \<le> q"
proof (induction tokens pos cur_scope arbitrary: q s rule: ProcessTop.pinduct)
  case (1 tokens pos cur_scope)
  note IH1 = "1.IH"(1)
  note IH2 = "1.IH"(2) [OF _ _ _ refl refl _ _ refl]
  note IH3 = "1.IH"(3) [OF _ _ _ refl refl _ _ _ refl]
  note IH4 = "1.IH"(4) [OF _ _ _ refl refl _ _ _ refl]
  note IH5 = "1.IH"(5) [OF _ _ _ refl refl _ _ _ refl _ _ _ refl]
  note IH6 = "1.IH"(6) [OF _ _ _ refl refl _ _ _ _ _ refl]
  from "1.prems" show ?case
    apply (subst (asm) ProcessTop.psimps [OF "1.hyps"])
    apply (auto simp: Let_def split: if_splits sum.splits prod.splits)
    subgoal using IH1 by fastforce
    subgoal for x1 x2a using IH2 [of x1 x2a q s] ProcessConcept_mono [of tokens "Suc pos" x1 x2a]
      by fastforce
    subgoal for x1 x2a using IH3 [of x1 x2a q s] ProcessTop_class_mono [of tokens "Suc pos" _ x1 x2a]
      by fastforce
    subgoal for x1 x2a using IH3 [of x1 x2a q s] ProcessTop_class_mono [of tokens "Suc pos" _ x1 x2a]
      by fastforce
    subgoal for x1 x2a
      using IH5 [of "AsLexeme tokens (int (pos + 1))" "pos + 2" x1 x2a q s]
        IH4 [of "AsLexeme tokens (int (pos + 1))" "pos + 2" x1 x2a] by fastforce
    subgoal for x1 x2a
      using IH5 [of "[]" "pos + 1" x1 x2a q s] IH4 [of "[]" "pos + 1" x1 x2a] by fastforce
    subgoal for x1 x2a using IH6 [of x1 x2a q s] ProcessTop_using_mono [of tokens "Suc pos" x1 x2a]
      by fastforce
    done
qed

termination ProcessTop
proof (relation "measure (\<lambda>(tokens, pos, cur_scope). length tokens - pos)", goal_cases)
  case 1
  show ?case by simp
next
  case 2
  then show ?case by auto
next
  case 3
  then show ?case by (auto dest!: ProcessConcept_mono)
next
  case 4
  then show ?case by (auto dest!: ProcessTop_class_mono)
next
  case 5
  then show ?case by (auto split: if_splits)
next
  case 6
  then show ?case by (auto split: if_splits dest!: ProcessTop_mono)
next
  case 7
  then show ?case by (auto dest!: ProcessTop_using_mono)
qed

declare ProcessTop.simps [simp del]

text \<open>
  \<^verbatim>\<open>Process\<close> declares \<^verbatim>\<open>size_t pos;\<close> without an initial value and hands it to
  \<^verbatim>\<open>ProcessTop\<close> with the root scope. The value the variable happens to hold is the second
  argument here; the result is the children of the root.
\<close>

definition Process :: "token list \<Rightarrow> nat \<Rightarrow> error + AST_Node list" where
  "Process tokens pos =
     (case ProcessTop tokens pos [] of
        Inl e \<Rightarrow> Inl e
      | Inr (pos, ast_root) \<Rightarrow> Inr ast_root)"

section \<open>Notions of the specification\<close>

text \<open>
  The brackets of section 4.2: the three pairs always, the angle brackets only when the
  scan is asked to match them.
\<close>

definition is_opener :: "bool \<Rightarrow> char \<Rightarrow> bool" where
  "is_opener mab c = (c = CHR ''('' \<or> c = CHR ''['' \<or> c = CHR ''{'' \<or> (mab \<and> c = CHR ''<''))"

definition is_closer :: "bool \<Rightarrow> char \<Rightarrow> bool" where
  "is_closer mab c = (c = CHR '')'' \<or> c = CHR '']'' \<or> c = CHR ''}'' \<or> (mab \<and> c = CHR ''>''))"

text \<open>
  The depth of the bracket stack after a run of tokens, as section 4.2 describes the stack:
  an opener pushes, a closer pops when there is something to pop. A surplus closer is a
  closer met at depth zero.
\<close>

definition depth_step :: "bool \<Rightarrow> nat \<Rightarrow> char \<Rightarrow> nat" where
  "depth_step mab d c = (if is_opener mab c then d + 1 else if is_closer mab c then d - 1 else d)"

definition depth_from :: "token list \<Rightarrow> bool \<Rightarrow> nat \<Rightarrow> nat \<Rightarrow> nat \<Rightarrow> nat" where
  "depth_from tokens mab d start i =
     foldl (depth_step mab) d (map (\<lambda>j. AsChar tokens (int j)) [start..<i])"

definition surplus_closer :: "token list \<Rightarrow> bool \<Rightarrow> nat \<Rightarrow> nat \<Rightarrow> bool" where
  "surplus_closer tokens mab start q =
     (start \<le> q \<and> q < length tokens \<and> is_closer mab (AsChar tokens (int q))
      \<and> depth_from tokens mab 0 start q = 0)"

fun join_spaces :: "string list \<Rightarrow> string" where
  "join_spaces [] = []"
| "join_spaces [x] = x"
| "join_spaces (x # y # ys) = x @ '' '' @ join_spaces (y # ys)"

definition consumed_text :: "token list \<Rightarrow> nat \<Rightarrow> nat \<Rightarrow> string" where
  "consumed_text tokens start q = join_spaces (map (\<lambda>i. lexeme (tokens ! i)) [start..<q])"

text \<open>
  The members of a concept in the order of their declaration: each is what
  \<^verbatim>\<open>ProcessConcept\<close> scans as one member, starting where the previous one ended, up to
  the closing brace. A member is of one kind, and joins the collection of that kind.
\<close>

datatype member_kind = Typedef | Function | Variable

definition add_member :: "member_kind \<Rightarrow> ElementInfo \<Rightarrow> AST_Concept \<Rightarrow> AST_Concept" where
  "add_member k e c =
     (case k of
        Typedef \<Rightarrow> c\<lparr>typedefs := typedefs c @ [e]\<rparr>
      | Function \<Rightarrow> c\<lparr>functions' := functions' c @ [e]\<rparr>
      | Variable \<Rightarrow> c\<lparr>variables := variables c @ [e]\<rparr>)"

inductive declared_members ::
  "token list \<Rightarrow> nat \<Rightarrow> (member_kind \<times> ElementInfo) list \<Rightarrow> nat \<Rightarrow> bool" where
  no_more: "AsChar tokens (int pos) = CHR ''}'' \<Longrightarrow> declared_members tokens pos [] pos"
| one_more: "AsChar tokens (int pos) \<noteq> CHR ''}'' \<Longrightarrow>
     ProcessConcept_member tokens pos new_AST_Concept
       = Inr (add_member k e new_AST_Concept, p1) \<Longrightarrow>
     declared_members tokens p1 ms q \<Longrightarrow>
     declared_members tokens pos ((k, e) # ms) q"

definition of_kind :: "member_kind \<Rightarrow> (member_kind \<times> ElementInfo) list \<Rightarrow> ElementInfo list" where
  "of_kind k ms = map snd (filter (\<lambda>m. fst m = k) ms)"

definition add_members :: "(member_kind \<times> ElementInfo) list \<Rightarrow> AST_Concept \<Rightarrow> AST_Concept" where
  "add_members ms c = foldl (\<lambda>c m. add_member (fst m) (snd m) c) c ms"

text \<open>Token sequences used as examples; identifiers and symbols as the lexer hands them over.\<close>

abbreviation ID :: "string \<Rightarrow> token" where
  "ID s \<equiv> \<lparr>token_id = TokID, lexeme = s\<rparr>"

abbreviation Sym :: "string \<Rightarrow> token" where
  "Sym s \<equiv> \<lparr>token_id = TokSymbol, lexeme = s\<rparr>"

definition ex_foo :: "token list" where
  "ex_foo = [ID ''foo'', Sym ''('', ID ''a'', Sym '','', ID ''b'', Sym '')'', Sym '')'']"

definition ex_semi_inside :: "token list" where
  "ex_semi_inside = [Sym ''('', ID ''a'', Sym '';'', ID ''b'', Sym '')'', Sym '';'']"

definition ex_semi_surplus :: "token list" where
  "ex_semi_surplus = [Sym ''('', ID ''a'', Sym '';'', ID ''b'', Sym '')'', Sym '')'']"

definition ex_angle :: "token list" where
  "ex_angle = [ID ''a'', Sym ''<'', ID ''b'', Sym '';'', ID ''c'', Sym ''>'', ID ''d'', Sym '';'']"

definition ex_template :: "token list" where
  "ex_template = [ID ''Foo'', Sym ''<'', ID ''Bar'', Sym ''>'', Sym ''('', ID ''x'', Sym '')'']"


text \<open>
  The three function members of section 8, the minimal concept, a nested namespace, three
  concepts whose function member ends wrongly, and the body of a concept with members of
  the three kinds interleaved.
\<close>

text \<open>An element with a name, a type and a special value, and nothing else.\<close>

definition element :: "string \<Rightarrow> string \<Rightarrow> string \<Rightarrow> ElementInfo" where
  "element n t v = \<lparr>el_name = n, el_type = t, params = [], attributes = {}, default_code = [],
               special_value = v\<rparr>"

definition ex_required :: "token list" where
  "ex_required = [ID ''void'', ID ''f'', Sym ''('', Sym '')'', Sym ''='', ID ''required'', Sym '';'']"

definition ex_default :: "token list" where
  "ex_default = [ID ''void'', ID ''f'', Sym ''('', Sym '')'', Sym ''='', ID ''default'', Sym '';'']"

definition ex_inline :: "token list" where
  "ex_inline = [ID ''void'', ID ''f'', Sym ''('', Sym '')'', Sym ''{'', ID ''return'', Sym '';'',
     Sym ''}'']"

definition ex_fitness :: "token list" where
  "ex_fitness = [ID ''concept'', ID ''Fitness'', Sym '':'', ID ''Base'', Sym ''{'',
     ID ''double'', ID ''GetFitness'', Sym ''('', Sym '')'', Sym ''='', ID ''required'', Sym '';'',
     ID ''int'', ID ''age'', Sym '';'', Sym ''}'', Sym '';'']"

definition ex_nested :: "token list" where
  "ex_nested = [ID ''namespace'', ID ''A'', Sym ''{'', ID ''namespace'', ID ''B'', Sym ''{'',
     ID ''using'', ID ''X'', Sym ''='', ID ''int'', Sym '';'', Sym ''}'', Sym ''}'']"

definition fitness_concept :: AST_Concept where
  "fitness_concept = \<lparr>name = ''Fitness'', base_name = ''Base'', typedefs = [],
     variables = [element ''age'' ''int'' []],
     functions' = [element ''GetFitness'' ''double'' ''required'']\<rparr>"

definition ex_bad_tail :: "token list" where
  "ex_bad_tail = [ID ''concept'', ID ''C'', Sym '':'', ID ''B'', Sym ''{'',
     ID ''void'', ID ''f'', Sym ''('', Sym '')'', Sym '';'', Sym ''}'', Sym '';'']"

definition ex_bad_number :: "token list" where
  "ex_bad_number = [ID ''concept'', ID ''C'', Sym '':'', ID ''B'', Sym ''{'',
     ID ''void'', ID ''f'', Sym ''('', Sym '')'', Sym ''='',
     \<lparr>token_id = TokNumber, lexeme = ''0''\<rparr>, Sym '';'', Sym ''}'', Sym '';'']"

definition ex_bad_assign :: "token list" where
  "ex_bad_assign = [ID ''concept'', ID ''C'', Sym '':'', ID ''B'', Sym ''{'',
     ID ''void'', ID ''f'', Sym ''('', Sym '')'', Sym ''='', ID ''delete'', Sym '';'', Sym ''}'',
     Sym '';'']"

definition ex_members :: "token list" where
  "ex_members = [Sym ''{'', ID ''int'', ID ''a'', Sym '';'', ID ''using'', ID ''T'', Sym ''='',
     ID ''int'', Sym '';'', ID ''void'', ID ''f'', Sym ''('', Sym '')'', Sym ''='',
     ID ''required'', Sym '';'', ID ''int'', ID ''b'', Sym '';'', ID ''using'', ID ''U'',
     Sym ''='', ID ''T'', Sym '';'', Sym ''}'', Sym '';'']"

section \<open>Properties of the bracket-aware scanner\<close>

subsection \<open>One turn of the loop\<close>

lemma loop_finished: "ProcessCode_loop tokens mab mline pos st True = pos"
  by (simp add: ProcessCode_loop.simps)

lemma loop_end: "\<not> pos < length tokens \<Longrightarrow> ProcessCode_loop tokens mab mline pos st fin = pos"
  by (simp add: ProcessCode_loop.simps)

lemma loop_semi:
  "pos < length tokens \<Longrightarrow> AsChar tokens (int pos) = CHR '';'' \<Longrightarrow>
   ProcessCode_loop tokens mab mline pos st False =
     (if mline then ProcessCode_loop tokens mab mline (pos + 1) st False else pos + 1)"
  by (subst ProcessCode_loop.simps) (simp add: loop_finished)

lemma loop_open:
  "pos < length tokens \<Longrightarrow> is_opener mab (AsChar tokens (int pos)) \<Longrightarrow>
   ProcessCode_loop tokens mab mline pos st False =
     ProcessCode_loop tokens mab mline (pos + 1) (st @ [AsChar tokens (int pos)]) False"
  by (subst ProcessCode_loop.simps) (auto simp: is_opener_def Let_def)

lemma loop_close_pop:
  "pos < length tokens \<Longrightarrow> is_closer mab (AsChar tokens (int pos)) \<Longrightarrow> st \<noteq> [] \<Longrightarrow>
   ProcessCode_loop tokens mab mline pos st False =
     ProcessCode_loop tokens mab mline (pos + 1) (butlast st) False"
  by (subst ProcessCode_loop.simps) (auto simp: is_closer_def Let_def)

lemma loop_close_halt:
  "pos < length tokens \<Longrightarrow> is_closer mab (AsChar tokens (int pos)) \<Longrightarrow>
   ProcessCode_loop tokens mab mline pos [] False = pos"
  by (subst ProcessCode_loop.simps) (auto simp: is_closer_def Let_def loop_finished)

lemma loop_other:
  "pos < length tokens \<Longrightarrow> AsChar tokens (int pos) \<noteq> CHR '';'' \<Longrightarrow>
   \<not> is_opener mab (AsChar tokens (int pos)) \<Longrightarrow> \<not> is_closer mab (AsChar tokens (int pos)) \<Longrightarrow>
   ProcessCode_loop tokens mab mline pos st False =
     ProcessCode_loop tokens mab mline (pos + 1) st False"
  by (subst ProcessCode_loop.simps) (auto simp: is_opener_def is_closer_def Let_def)

subsection \<open>The scan up to its stopping point\<close>

lemma depth_from_Suc:
  "start \<le> i \<Longrightarrow> depth_from tokens mab d start (Suc i) =
     depth_step mab (depth_from tokens mab d start i) (AsChar tokens (int i))"
  by (simp add: depth_from_def)

lemma depth_from_same: "depth_from tokens mab d start start = d"
  by (simp add: depth_from_def)

lemma opener_not_closer: "is_opener mab c \<Longrightarrow> \<not> is_closer mab c"
  by (auto simp: is_opener_def is_closer_def)

lemma semi_not_bracket: "\<not> is_opener mab (CHR '';'')" "\<not> is_closer mab (CHR '';'')"
  by (auto simp: is_opener_def is_closer_def)

lemma loop_step_depth:
  assumes "n < length tokens"
    and "mline \<or> AsChar tokens (int n) \<noteq> CHR '';''"
    and "\<not> (is_closer mab (AsChar tokens (int n)) \<and> st = [])"
  shows "\<exists>st'. length st' = depth_step mab (length st) (AsChar tokens (int n))
           \<and> ProcessCode_loop tokens mab mline n st False =
               ProcessCode_loop tokens mab mline (Suc n) st' False"
proof -
  let ?c = "AsChar tokens (int n)"
  consider (semi) "?c = CHR '';''" | (opn) "is_opener mab ?c" | (cls) "is_closer mab ?c"
    | (other) "?c \<noteq> CHR '';''" "\<not> is_opener mab ?c" "\<not> is_closer mab ?c"
    by blast
  then show ?thesis
  proof cases
    case semi
    with assms have "ProcessCode_loop tokens mab mline n st False =
        ProcessCode_loop tokens mab mline (Suc n) st False"
      by (simp add: loop_semi)
    moreover have "depth_step mab (length st) ?c = length st"
      using semi by (simp add: depth_step_def semi_not_bracket)
    ultimately show ?thesis by metis
  next
    case opn
    with assms have "ProcessCode_loop tokens mab mline n st False =
        ProcessCode_loop tokens mab mline (Suc n) (st @ [?c]) False"
      by (simp add: loop_open)
    moreover have "depth_step mab (length st) ?c = length (st @ [?c])"
      using opn by (simp add: depth_step_def)
    ultimately show ?thesis by metis
  next
    case cls
    with assms have ne: "st \<noteq> []" by blast
    with cls assms have "ProcessCode_loop tokens mab mline n st False =
        ProcessCode_loop tokens mab mline (Suc n) (butlast st) False"
      by (simp add: loop_close_pop)
    moreover have "depth_step mab (length st) ?c = length (butlast st)"
      using cls opener_not_closer by (auto simp: depth_step_def)
    ultimately show ?thesis by metis
  next
    case other
    with assms have "ProcessCode_loop tokens mab mline n st False =
        ProcessCode_loop tokens mab mline (Suc n) st False"
      by (simp add: loop_other)
    moreover have "depth_step mab (length st) ?c = length st"
      using other by (simp add: depth_step_def)
    ultimately show ?thesis by metis
  qed
qed

lemma loop_prefix:
  assumes "p \<le> q" and "q \<le> length tokens"
    and "\<forall>i. p \<le> i \<and> i < q \<longrightarrow>
           (mline \<or> AsChar tokens (int i) \<noteq> CHR '';'')
           \<and> \<not> (is_closer mab (AsChar tokens (int i)) \<and> depth_from tokens mab (length st) p i = 0)"
  shows "\<exists>st'. length st' = depth_from tokens mab (length st) p q
           \<and> ProcessCode_loop tokens mab mline p st False =
               ProcessCode_loop tokens mab mline q st' False"
  using assms(1)
proof (induction rule: dec_induct)
  case base
  show ?case by (metis depth_from_same)
next
  case (step n)
  then obtain st1 where l1: "length st1 = depth_from tokens mab (length st) p n"
    and e1: "ProcessCode_loop tokens mab mline p st False =
             ProcessCode_loop tokens mab mline n st1 False"
    by blast
  from step assms(2) have n: "n < length tokens" by simp
  from step assms(3) have ok: "mline \<or> AsChar tokens (int n) \<noteq> CHR '';''"
    and nc: "\<not> (is_closer mab (AsChar tokens (int n)) \<and> depth_from tokens mab (length st) p n = 0)"
    by blast+
  from nc l1 have "\<not> (is_closer mab (AsChar tokens (int n)) \<and> st1 = [])" by auto
  from loop_step_depth [OF n ok this] obtain st2 where
    "length st2 = depth_step mab (length st1) (AsChar tokens (int n))"
    "ProcessCode_loop tokens mab mline n st1 False = ProcessCode_loop tokens mab mline (Suc n) st2 False"
    by blast
  with l1 e1 step(1) show ?case
    by (metis depth_from_Suc)
qed

lemma ConcatLexemes_loop_eq:
  "ConcatLexemes_loop tokens s e i ss =
     ss @ concat (map (\<lambda>j. (if j > s then '' '' else []) @ lexeme (tokens ! j)) [i..<e])"
proof (induction tokens s e i ss rule: ConcatLexemes_loop.induct)
  case (1 tokens s e i ss)
  show ?case
  proof (cases "i < e")
    case True
    with 1 show ?thesis
      by (subst ConcatLexemes_loop.simps) (simp add: upt_conv_Cons)
  next
    case False
    then show ?thesis by (subst ConcatLexemes_loop.simps) simp
  qed
qed

lemma join_spaces_Cons: "join_spaces (x # xs) = x @ concat (map ((@) '' '') xs)"
  by (induction xs arbitrary: x) auto

lemma concat_spaced_eq_join:
  "concat (map (\<lambda>j. (if j > s then '' '' else []) @ f j) [s..<e]) = join_spaces (map f [s..<e])"
proof (cases "s < e")
  case True
  have h: "concat (map (\<lambda>j. (if s < j then '' '' else []) @ f j) [Suc s..<e]) =
           concat (map ((@) '' '' \<circ> f) [Suc s..<e])"
    by (rule arg_cong [where f = concat], rule map_cong) auto
  from True have "[s..<e] = s # [Suc s..<e]"
    by (simp add: upt_conv_Cons)
  then show ?thesis
    by (simp add: join_spaces_Cons h del: upt_Suc)
next
  case False
  then show ?thesis by simp
qed

lemma ConcatLexemes_text:
  "s \<le> e \<Longrightarrow> e \<le> length tokens \<Longrightarrow> ConcatLexemes tokens s e = Inr (consumed_text tokens s e)"
  by (simp add: ConcatLexemes_def ConcatLexemes_loop_eq concat_spaced_eq_join consumed_text_def)

lemma ProcessCode_stop:
  assumes "pos \<le> q" and "q \<le> length tokens"
    and "ProcessCode_loop tokens mab mline pos [] False = q"
  shows "ProcessCode tokens pos mab mline = Inr (consumed_text tokens pos q, q)"
  using assms by (simp add: ProcessCode_def ConcatLexemes_text)

lemma ProcessCode_loop_reaches:
  assumes "pos \<le> q"
    and "surplus_closer tokens mab pos q \<or> q = length tokens"
    and "\<forall>i. pos \<le> i \<and> i < q \<longrightarrow>
           \<not> surplus_closer tokens mab pos i \<and> (mline \<or> AsChar tokens (int i) \<noteq> CHR '';'')"
  shows "ProcessCode_loop tokens mab mline pos [] False = q \<and> q \<le> length tokens"
proof -
  from assms(2) have qle: "q \<le> length tokens"
    by (auto simp: surplus_closer_def)
  have "\<forall>i. pos \<le> i \<and> i < q \<longrightarrow>
           (mline \<or> AsChar tokens (int i) \<noteq> CHR '';'')
           \<and> \<not> (is_closer mab (AsChar tokens (int i))
                \<and> depth_from tokens mab (length ([]::char list)) pos i = 0)"
    using assms(3) qle by (auto simp: surplus_closer_def)
  from loop_prefix [OF assms(1) qle this] obtain st' where
    len: "length st' = depth_from tokens mab 0 pos q"
    and eq: "ProcessCode_loop tokens mab mline pos [] False =
             ProcessCode_loop tokens mab mline q st' False"
    by auto
  have "ProcessCode_loop tokens mab mline q st' False = q"
  proof (cases "q = length tokens")
    case True
    then show ?thesis by (simp add: loop_end)
  next
    case False
    with assms(2) have sc: "surplus_closer tokens mab pos q" by simp
    with len have "st' = []" by (simp add: surplus_closer_def)
    with sc show ?thesis by (simp add: surplus_closer_def loop_close_halt)
  qed
  with eq qle show ?thesis by simp
qed

subsection \<open>The claims about the scanner\<close>

text \<open>
  From any cursor inside the token sequence, when the scan is multi-line or no semicolon
  token at all precedes the stopping point, \<^verbatim>\<open>ProcessCode\<close> halts at the first surplus
  closing bracket: the cursor is at that closer, which is not consumed, and the text
  returned is the lexemes of the consumed tokens joined by single spaces. With no surplus
  closer it consumes to the end of the input, without error. Scanning \<^verbatim>\<open>foo(a, b))\<close>
  from \<^verbatim>\<open>foo\<close> returns \<^verbatim>\<open>foo ( a , b )\<close> and leaves the cursor at the second closing
  parenthesis, token 6.
\<close>

lemma ProcessCode_reaches_first_surplus_closer:
  assumes "pos \<le> q"
    and "surplus_closer tokens mab pos q \<or> q = length tokens"
    and "\<forall>i. pos \<le> i \<and> i < q \<longrightarrow>
           \<not> surplus_closer tokens mab pos i \<and> (mline \<or> AsChar tokens (int i) \<noteq> CHR '';'')"
  shows "ProcessCode tokens pos mab mline = Inr (consumed_text tokens pos q, q)
         \<and> ProcessCode ex_foo 0 False False = Inr (''foo ( a , b )'', 6)"
proof -
  from ProcessCode_loop_reaches [OF assms]
  have "ProcessCode tokens pos mab mline = Inr (consumed_text tokens pos q, q)"
    using ProcessCode_stop [OF assms(1)] by simp
  moreover have "ProcessCode ex_foo 0 False False = Inr (''foo ( a , b )'', 6)"
    by code_simp
  ultimately show ?thesis by simp
qed

lemma ProcessCode_reaches_first_surplus_closer_on_foo:
  "surplus_closer ex_foo False 0 6
   \<and> ProcessCode ex_foo 0 False False = Inr (consumed_text ex_foo 0 6, 6)
   \<and> consumed_text ex_foo 0 6 = ''foo ( a , b )''"
proof -
  have sc: "surplus_closer ex_foo False 0 6"
    by code_simp
  have "\<forall>i \<in> {0..<6}. \<not> surplus_closer ex_foo False 0 i
          \<and> (False \<or> AsChar ex_foo (int i) \<noteq> CHR '';'')"
    by code_simp
  then have none: "\<forall>i. 0 \<le> i \<and> i < 6 \<longrightarrow> \<not> surplus_closer ex_foo False 0 i
          \<and> (False \<or> AsChar ex_foo (int i) \<noteq> CHR '';'')"
    by auto
  have ctext: "consumed_text ex_foo 0 6 = ''foo ( a , b )''"
    by code_simp
  from ProcessCode_reaches_first_surplus_closer [of 0 6 ex_foo False False] sc none
  have "ProcessCode ex_foo 0 False False = Inr (consumed_text ex_foo 0 6, 6)"
    by blast
  with sc ctext show ?thesis by blast
qed

text \<open>
  C1. The claim: \<^verbatim>\<open>ProcessCode\<close> halts exactly at the first surplus closing bracket, the
  cursor on it, unless a terminating semicolon, one at depth zero, comes first. The code
  ends a scan that is not multi-line at a semicolon of any depth: in \<^verbatim>\<open>( a ; b ) )\<close> the
  first surplus closer is token 5 and the only semicolon, token 2, is at depth 1, yet the
  scan stops after that semicolon, at token 3, with the text \<^verbatim>\<open>( a ;\<close>. The multi-line
  scan of the same tokens halts on token 5.
\<close>

theorem ProcessCode_stops_at_semicolon_before_first_surplus_closer:
  "surplus_closer ex_semi_surplus False 0 5
   \<and> list_all (\<lambda>i. \<not> surplus_closer ex_semi_surplus False 0 i) [0..<5]
   \<and> AsChar ex_semi_surplus (int 2) = CHR '';''
   \<and> depth_from ex_semi_surplus False 0 0 2 = 1
   \<and> ProcessCode ex_semi_surplus 0 False False = Inr (''( a ;'', 3)
   \<and> ProcessCode ex_semi_surplus 0 False True = Inr (''( a ; b )'', 5)"
  by code_simp

text \<open>
  C2. The claim: with \<^verbatim>\<open>multi_line=false\<close> a semicolon ends the scan only at bracket depth
  zero. The code ends the scan at every semicolon token, whatever the stack holds: the
  turn of the loop at a semicolon leaves the cursor just after it and finishes, for any
  stack. In \<^verbatim>\<open>( a ; b ) ;\<close> the scan stops after the semicolon inside the parentheses, at
  token 3, with the text \<^verbatim>\<open>( a ;\<close>. The notes at the head of \<^verbatim>\<open>Emphatic.h\<close> ask for a
  semicolon outside of parentheses.
\<close>

theorem ProcessCode_semicolon_inside_brackets_ends_scan:
  assumes "pos < length tokens" and "AsChar tokens (int pos) = CHR '';''"
  shows "ProcessCode_loop tokens mab False pos st False = pos + 1
         \<and> ProcessCode ex_semi_inside 0 False False = Inr (''( a ;'', 3)"
proof -
  have "ProcessCode ex_semi_inside 0 False False = Inr (''( a ;'', 3)"
    by code_simp
  with loop_semi [OF assms, of mab False st] show ?thesis
    by simp
qed

theorem ProcessCode_semicolon_inside_brackets_ends_scan_witness:
  "AsChar ex_semi_inside (int 2) = CHR '';''
   \<and> ProcessCode_loop ex_semi_inside False False 2 [CHR ''(''] False = 3"
proof -
  have h: "(2::nat) < length ex_semi_inside" "AsChar ex_semi_inside (int 2) = CHR '';''"
    by code_simp+
  from ProcessCode_semicolon_inside_brackets_ends_scan [OF h, of False "[CHR ''('']"] h
  show ?thesis by simp
qed

text \<open>
  C3. An opening angle bracket is pushed, and a closing one pops (or, on an empty stack,
  ends the scan), only when \<^verbatim>\<open>match_angle_bracket\<close> is set; otherwise both are passed over
  like any other token. So the scan of \<^verbatim>\<open>a < b; c > d;\<close> stops after the first semicolon,
  and \<^verbatim>\<open>ProcessType\<close> on \<^verbatim>\<open>Foo<Bar>(x)\<close> consumes through the closing angle bracket.
\<close>

theorem angle_brackets_count_only_when_asked:
  assumes "i < length tokens" and "AsChar tokens (int i) = CHR ''<''"
    and "j < length tokens" and "AsChar tokens (int j) = CHR ''>''"
  shows "ProcessCode_loop tokens True mline i st False
           = ProcessCode_loop tokens True mline (i + 1) (st @ [CHR ''<'']) False
         \<and> ProcessCode_loop tokens False mline i st False
           = ProcessCode_loop tokens False mline (i + 1) st False
         \<and> ProcessCode_loop tokens True mline j st False
           = (if st = [] then j else ProcessCode_loop tokens True mline (j + 1) (butlast st) False)
         \<and> ProcessCode_loop tokens False mline j st False
           = ProcessCode_loop tokens False mline (j + 1) st False
         \<and> ProcessCode ex_angle 0 False False = Inr (''a < b ;'', 4)
         \<and> ProcessType ex_template 0 = Inr (''Foo < Bar >'', 4)"
proof -
  have a: "is_opener True (CHR ''<'')" "\<not> is_opener False (CHR ''<'')"
    "\<not> is_closer False (CHR ''<'')" "is_closer True (CHR ''>'')"
    "\<not> is_opener False (CHR ''>'')" "\<not> is_closer False (CHR ''>'')"
    by (simp_all add: is_opener_def is_closer_def)
  have 1: "ProcessCode_loop tokens True mline i st False
           = ProcessCode_loop tokens True mline (i + 1) (st @ [CHR ''<'']) False"
    using loop_open [OF assms(1), of True mline st] assms(2) a by simp
  have 2: "ProcessCode_loop tokens False mline i st False
           = ProcessCode_loop tokens False mline (i + 1) st False"
    using loop_other [OF assms(1), of False mline st] assms(2) a by simp
  have 3: "ProcessCode_loop tokens True mline j st False
           = (if st = [] then j else ProcessCode_loop tokens True mline (j + 1) (butlast st) False)"
    using loop_close_pop [OF assms(3), of True st mline]
      loop_close_halt [OF assms(3), of True mline] assms(4) a by simp
  have 4: "ProcessCode_loop tokens False mline j st False
           = ProcessCode_loop tokens False mline (j + 1) st False"
    using loop_other [OF assms(3), of False mline st] assms(4) a by simp
  have 5: "ProcessCode ex_angle 0 False False = Inr (''a < b ;'', 4)"
    by code_simp
  have 6: "ProcessType ex_template 0 = Inr (''Foo < Bar >'', 4)"
    by code_simp
  from 1 2 3 4 5 6 show ?thesis by blast
qed

theorem angle_brackets_count_only_when_asked_witness:
  "AsChar ex_angle (int 1) = CHR ''<'' \<and> AsChar ex_angle (int 5) = CHR ''>''
   \<and> ProcessCode_loop ex_angle True False 1 [] False
       = ProcessCode_loop ex_angle True False 2 [CHR ''<''] False
   \<and> ProcessCode_loop ex_angle False False 1 [] False
       = ProcessCode_loop ex_angle False False 2 [] False
   \<and> ProcessCode_loop ex_angle True False 5 [] False = 5
   \<and> ProcessCode_loop ex_angle False False 5 [] False
       = ProcessCode_loop ex_angle False False 6 [] False"
proof -
  have h: "(1::nat) < length ex_angle" "AsChar ex_angle (int 1) = CHR ''<''"
    "(5::nat) < length ex_angle" "AsChar ex_angle (int 5) = CHR ''>''"
    by code_simp+
  from angle_brackets_count_only_when_asked [OF h, of False "[]"] h show ?thesis
    by (simp add: numeral_2_eq_2)
qed



section \<open>Properties of the concept scanner\<close>

text \<open>
  C5. The member \<^verbatim>\<open>void f() = required;\<close> gives an element with special value
  \<^verbatim>\<open>required\<close> and no body; \<^verbatim>\<open>void f() = default;\<close> one with special value
  \<^verbatim>\<open>default\<close> and no body; \<^verbatim>\<open>void f() { return; }\<close> one with no special value and the
  body \<^verbatim>\<open>return ;\<close>, the lexemes between the braces joined by single spaces. Each joins
  the functions of the concept.
\<close>

theorem function_member_variants:
  "ProcessConcept_member ex_required 0 new_AST_Concept
     = Inr (new_AST_Concept\<lparr>functions' :=
              [\<lparr>el_name = ''f'', el_type = ''void'', params = [], attributes = {},
                default_code = [], special_value = ''required''\<rparr>]\<rparr>, 7)
   \<and> ProcessConcept_member ex_default 0 new_AST_Concept
     = Inr (new_AST_Concept\<lparr>functions' :=
              [\<lparr>el_name = ''f'', el_type = ''void'', params = [], attributes = {},
                default_code = [], special_value = ''default''\<rparr>]\<rparr>, 7)
   \<and> ProcessConcept_member ex_inline 0 new_AST_Concept
     = Inr (new_AST_Concept\<lparr>functions' :=
              [\<lparr>el_name = ''f'', el_type = ''void'', params = [], attributes = {},
                default_code = ''return ;'', special_value = []\<rparr>]\<rparr>, 8)"
  by code_simp

subsection \<open>Wrong ends of a function member\<close>

lemma tail_neither_brace_nor_assign:
  "AsChar tokens (int p3) \<noteq> CHR ''{'' \<Longrightarrow> AsChar tokens (int p3) \<noteq> CHR ''='' \<Longrightarrow>
   ProcessConcept_function_tail tokens p3 el = Inl (Fatal (int p3)
     ''Function body must begin with open brace or assignment ('{' or '=')'')"
  by (simp add: ProcessConcept_function_tail_def Let_def)

lemma tail_assign_without_identifier:
  "AsChar tokens (int p3) = CHR ''='' \<Longrightarrow> \<not> IsID tokens (int (p3 + 1)) \<Longrightarrow>
   ProcessConcept_function_tail tokens p3 el = Inl (Fatal (int p3 + 1)
     (''Function must be assigned to 'required' or '' @ [CHR 0x27] @ ''default'' @ [CHR 0x27]))"
  by (simp add: ProcessConcept_function_tail_def Let_def add.commute)

lemma tail_assign_other_identifier:
  "AsChar tokens (int p3) = CHR ''='' \<Longrightarrow> IsID tokens (int (p3 + 1)) \<Longrightarrow>
   AsLexeme tokens (int (p3 + 1)) \<noteq> ''required'' \<Longrightarrow>
   AsLexeme tokens (int (p3 + 1)) \<noteq> ''default'' \<Longrightarrow>
   ProcessConcept_function_tail tokens p3 el = Inl (Fatal (int p3 + 2)
     (''Functions can only be set to 'required' or '' @ [CHR 0x27] @ ''default'' @ [CHR 0x27]))"
  by (simp add: ProcessConcept_function_tail_def Let_def add.commute)

lemma tail_error_reaches_loop:
  assumes "AsChar tokens (int pos) \<noteq> CHR ''}''"
    and "IsID tokens (int pos)" and "lexeme (tokens ! pos) \<noteq> ''using''"
    and "ProcessType tokens pos = Inr (ty, p1)" and "IsID tokens (int p1)"
    and "AsChar tokens (int (p1 + 1)) = CHR ''(''"
    and "ProcessParams tokens (p1 + 2) = Inr (ps, p2)"
    and "AsChar tokens (int p2) = CHR '')''"
    and "ProcessIDList tokens (p2 + 1) = (ids, p3)"
    and "\<And>el. ProcessConcept_function_tail tokens p3 el = Inl e"
  shows "ProcessConcept_member tokens pos concept = Inl e
         \<and> ProcessConcept_loop tokens pos concept = Inl e"
proof -
  have m: "ProcessConcept_member tokens pos concept = Inl e"
    using assms(2-10) by (simp add: ProcessConcept_member_def Let_def)
  have "ProcessConcept_loop tokens pos concept = Inl e"
    using assms(1) m by (subst ProcessConcept_loop.simps) simp
  with m show ?thesis by simp
qed

text \<open>
  C6. The claim: in a function member, after the closing parenthesis of the parameters
  and the attributes, a token that is neither an opening brace nor an equals sign is fatal,
  and so is an equals sign followed by anything but the identifier \<^verbatim>\<open>required\<close> or
  \<^verbatim>\<open>default\<close>; the diagnostic names the position of the token, and nothing is scanned
  after it. The code ends the member, and the loop over the members, with a fatal error
  in each of these cases. The position it names is that of the offending token when the
  token is neither a brace nor an equals sign, and when the equals sign is followed by
  something that is no identifier. For an identifier other than \<^verbatim>\<open>required\<close> and
  \<^verbatim>\<open>default\<close> the cursor has already moved past it when \<^verbatim>\<open>Error\<close> is called: the
  position named is that of the token after the identifier.
\<close>

theorem illegal_function_tail_diagnostic_position:
  assumes "AsChar tokens (int pos) \<noteq> CHR ''}''"
    and "IsID tokens (int pos)" and "lexeme (tokens ! pos) \<noteq> ''using''"
    and "ProcessType tokens pos = Inr (ty, p1)" and "IsID tokens (int p1)"
    and "AsChar tokens (int (p1 + 1)) = CHR ''(''"
    and "ProcessParams tokens (p1 + 2) = Inr (ps, p2)"
    and "AsChar tokens (int p2) = CHR '')''"
    and "ProcessIDList tokens (p2 + 1) = (ids, p3)"
  shows "(AsChar tokens (int p3) \<noteq> CHR ''{'' \<and> AsChar tokens (int p3) \<noteq> CHR ''='' \<longrightarrow>
            ProcessConcept_member tokens pos concept = Inl (Fatal (int p3)
              ''Function body must begin with open brace or assignment ('{' or '=')'')
            \<and> ProcessConcept_loop tokens pos concept = Inl (Fatal (int p3)
              ''Function body must begin with open brace or assignment ('{' or '=')''))
         \<and> (AsChar tokens (int p3) = CHR ''='' \<and> \<not> IsID tokens (int (p3 + 1)) \<longrightarrow>
            ProcessConcept_member tokens pos concept = Inl (Fatal (int p3 + 1)
              (''Function must be assigned to 'required' or '' @ [CHR 0x27] @ ''default''
               @ [CHR 0x27]))
            \<and> ProcessConcept_loop tokens pos concept = Inl (Fatal (int p3 + 1)
              (''Function must be assigned to 'required' or '' @ [CHR 0x27] @ ''default''
               @ [CHR 0x27])))
         \<and> (AsChar tokens (int p3) = CHR ''='' \<and> IsID tokens (int (p3 + 1))
            \<and> AsLexeme tokens (int (p3 + 1)) \<noteq> ''required''
            \<and> AsLexeme tokens (int (p3 + 1)) \<noteq> ''default'' \<longrightarrow>
            ProcessConcept_member tokens pos concept = Inl (Fatal (int p3 + 2)
              (''Functions can only be set to 'required' or '' @ [CHR 0x27] @ ''default''
               @ [CHR 0x27]))
            \<and> ProcessConcept_loop tokens pos concept = Inl (Fatal (int p3 + 2)
              (''Functions can only be set to 'required' or '' @ [CHR 0x27] @ ''default''
               @ [CHR 0x27])))"
  using tail_error_reaches_loop [OF assms, of _ concept]
    tail_neither_brace_nor_assign [of tokens p3]
    tail_assign_without_identifier [of tokens p3]
    tail_assign_other_identifier [of tokens p3]
  by blast

theorem illegal_function_tail_diagnostic_position_witness:
  "AsChar ex_bad_tail (int 9) = CHR '';''
   \<and> ProcessConcept_loop ex_bad_tail 5 new_AST_Concept = Inl (Fatal 9
        ''Function body must begin with open brace or assignment ('{' or '=')'')
   \<and> ProcessTop ex_bad_tail 0 [] = Inl (Fatal 9
        ''Function body must begin with open brace or assignment ('{' or '=')'')
   \<and> AsChar ex_bad_number (int 9) = CHR ''='' \<and> IsNumber ex_bad_number (int 10)
   \<and> ProcessConcept_loop ex_bad_number 5 new_AST_Concept = Inl (Fatal 10
        (''Function must be assigned to 'required' or '' @ [CHR 0x27] @ ''default''
         @ [CHR 0x27]))
   \<and> ProcessTop ex_bad_number 0 [] = Inl (Fatal 10
        (''Function must be assigned to 'required' or '' @ [CHR 0x27] @ ''default''
         @ [CHR 0x27]))
   \<and> AsChar ex_bad_assign (int 9) = CHR ''='' \<and> AsLexeme ex_bad_assign (int 10) = ''delete''
   \<and> AsChar ex_bad_assign (int 11) = CHR '';''
   \<and> ProcessConcept_loop ex_bad_assign 5 new_AST_Concept = Inl (Fatal 11
        (''Functions can only be set to 'required' or '' @ [CHR 0x27] @ ''default''
         @ [CHR 0x27]))
   \<and> ProcessTop ex_bad_assign 0 [] = Inl (Fatal 11
        (''Functions can only be set to 'required' or '' @ [CHR 0x27] @ ''default''
         @ [CHR 0x27]))"
proof -
  have h1: "AsChar ex_bad_tail (int 5) \<noteq> CHR ''}''" "IsID ex_bad_tail (int 5)"
    "lexeme (ex_bad_tail ! 5) \<noteq> ''using''"
    "ProcessType ex_bad_tail 5 = Inr (''void'', 6)" "IsID ex_bad_tail (int 6)"
    "AsChar ex_bad_tail (int (6 + 1)) = CHR ''(''"
    "ProcessParams ex_bad_tail (6 + 2) = Inr ([], 8)"
    "AsChar ex_bad_tail (int 8) = CHR '')''"
    "ProcessIDList ex_bad_tail (8 + 1) = ({}, 9)"
    by code_simp+
  have h2: "AsChar ex_bad_number (int 5) \<noteq> CHR ''}''" "IsID ex_bad_number (int 5)"
    "lexeme (ex_bad_number ! 5) \<noteq> ''using''"
    "ProcessType ex_bad_number 5 = Inr (''void'', 6)" "IsID ex_bad_number (int 6)"
    "AsChar ex_bad_number (int (6 + 1)) = CHR ''(''"
    "ProcessParams ex_bad_number (6 + 2) = Inr ([], 8)"
    "AsChar ex_bad_number (int 8) = CHR '')''"
    "ProcessIDList ex_bad_number (8 + 1) = ({}, 9)"
    by code_simp+
  have h3: "AsChar ex_bad_assign (int 5) \<noteq> CHR ''}''" "IsID ex_bad_assign (int 5)"
    "lexeme (ex_bad_assign ! 5) \<noteq> ''using''"
    "ProcessType ex_bad_assign 5 = Inr (''void'', 6)" "IsID ex_bad_assign (int 6)"
    "AsChar ex_bad_assign (int (6 + 1)) = CHR ''(''"
    "ProcessParams ex_bad_assign (6 + 2) = Inr ([], 8)"
    "AsChar ex_bad_assign (int 8) = CHR '')''"
    "ProcessIDList ex_bad_assign (8 + 1) = ({}, 9)"
    by code_simp+
  have c1: "AsChar ex_bad_tail (int 9) = CHR '';''"
    by code_simp
  have c2: "AsChar ex_bad_number (int 9) = CHR ''=''" "IsNumber ex_bad_number (int 10)"
    "\<not> IsID ex_bad_number (int (9 + 1))"
    by code_simp+
  have c3: "AsChar ex_bad_assign (int 9) = CHR ''=''" "AsLexeme ex_bad_assign (int 10) = ''delete''"
    "AsChar ex_bad_assign (int 11) = CHR '';''" "IsID ex_bad_assign (int (9 + 1))"
    "AsLexeme ex_bad_assign (int (9 + 1)) \<noteq> ''required''"
    "AsLexeme ex_bad_assign (int (9 + 1)) \<noteq> ''default''"
    by code_simp+
  have t: "ProcessTop ex_bad_tail 0 [] = Inl (Fatal 9
        ''Function body must begin with open brace or assignment ('{' or '=')'')"
    "ProcessTop ex_bad_number 0 [] = Inl (Fatal 10
        (''Function must be assigned to 'required' or '' @ [CHR 0x27] @ ''default''
         @ [CHR 0x27]))"
    "ProcessTop ex_bad_assign 0 [] = Inl (Fatal 11
        (''Functions can only be set to 'required' or '' @ [CHR 0x27] @ ''default''
         @ [CHR 0x27]))"
    by code_simp+
  have l1: "ProcessConcept_loop ex_bad_tail 5 new_AST_Concept = Inl (Fatal 9
        ''Function body must begin with open brace or assignment ('{' or '=')'')"
    using illegal_function_tail_diagnostic_position [OF h1, of new_AST_Concept] c1 by simp
  have l2: "ProcessConcept_loop ex_bad_number 5 new_AST_Concept = Inl (Fatal 10
        (''Function must be assigned to 'required' or '' @ [CHR 0x27] @ ''default''
         @ [CHR 0x27]))"
    using illegal_function_tail_diagnostic_position [OF h2, of new_AST_Concept] c2 by simp
  have l3: "ProcessConcept_loop ex_bad_assign 5 new_AST_Concept = Inl (Fatal 11
        (''Functions can only be set to 'required' or '' @ [CHR 0x27] @ ''default''
         @ [CHR 0x27]))"
    using illegal_function_tail_diagnostic_position [OF h3, of new_AST_Concept] c3 by simp
  from c1 c2(1,2) c3(1,2,3) t l1 l2 l3 show ?thesis by simp
qed

subsection \<open>The end of a concept\<close>

lemma ProcessConcept_loop_stops_at_brace:
  "ProcessConcept_loop tokens pos c = Inr (c', q) \<Longrightarrow> AsChar tokens (int q) = CHR ''}''"
proof (induction "length tokens - pos" arbitrary: pos c rule: less_induct)
  case less
  have IH: "\<And>p c1. ProcessConcept_loop tokens p c1 = Inr (c', q) \<Longrightarrow> pos < p \<Longrightarrow>
              pos < length tokens \<Longrightarrow> AsChar tokens (int q) = CHR ''}''"
  proof -
    fix p c1 assume a: "ProcessConcept_loop tokens p c1 = Inr (c', q)" "pos < p" "pos < length tokens"
    then have "length tokens - p < length tokens - pos" by arith
    from less.hyps [OF this a(1)] show "AsChar tokens (int q) = CHR ''}''" .
  qed
  from less.prems show ?case
    apply (subst (asm) ProcessConcept_loop.simps)
    apply (auto simp: Let_def split: if_splits sum.splits prod.splits
                dest!: ProcessConcept_member_advances intro: IH)
    done
qed

lemma ProcessConcept_ends:
  "ProcessConcept tokens pos = Inr (c, q) \<Longrightarrow>
     2 \<le> q \<and> AsChar tokens (int (q - 2)) = CHR ''}'' \<and> AsChar tokens (int (q - 1)) = CHR '';''"
  by (auto simp: ProcessConcept_def Let_def split: if_splits sum.splits prod.splits
           dest!: ProcessConcept_loop_stops_at_brace)

text \<open>
  C7. The minimal concept of section 8 parses into exactly one concept node, named
  \<^verbatim>\<open>Fitness\<close> with base \<^verbatim>\<open>Base\<close>, one function \<^verbatim>\<open>GetFitness\<close> of type \<^verbatim>\<open>double\<close>
  marked \<^verbatim>\<open>required\<close>, and one variable \<^verbatim>\<open>age\<close> of type \<^verbatim>\<open>int\<close>. Whenever a concept
  is parsed, the last two tokens consumed are the closing brace and a semicolon; without
  the semicolon the run ends with a diagnostic.
\<close>

theorem minimal_concept_parses:
  assumes "ProcessConcept tokens pos = Inr (c, q)"
  shows "ProcessTop ex_fitness 0 [] = Inr (17, [AST_Concept_Node fitness_concept])
         \<and> 2 \<le> q \<and> AsChar tokens (int (q - 2)) = CHR ''}''
         \<and> AsChar tokens (int (q - 1)) = CHR '';''
         \<and> ProcessTop (butlast ex_fitness) 0 []
             = Inl (Fatal 16 ''Concept definitions must end in a semi-colon.'')"
proof -
  have "ProcessTop ex_fitness 0 [] = Inr (17, [AST_Concept_Node fitness_concept])"
    by code_simp
  moreover have "ProcessTop (butlast ex_fitness) 0 []
             = Inl (Fatal 16 ''Concept definitions must end in a semi-colon.'')"
    by code_simp
  ultimately show ?thesis
    using ProcessConcept_ends [OF assms] by blast
qed

theorem minimal_concept_parses_witness:
  "ProcessConcept ex_fitness 1 = Inr (fitness_concept, 17)
   \<and> AsChar ex_fitness (int (17 - 2)) = CHR ''}''
   \<and> AsChar ex_fitness (int (17 - 1)) = CHR '';''"
proof -
  have h: "ProcessConcept ex_fitness 1 = Inr (fitness_concept, 17)"
    by code_simp
  from minimal_concept_parses [OF h] h show ?thesis
    by blast
qed

subsection \<open>The order of the members\<close>

lemma add_member_folds:
  "c\<lparr>typedefs := typedefs c @ [e]\<rparr> = add_member Typedef e c"
  "c\<lparr>functions' := functions' c @ [e]\<rparr> = add_member Function e c"
  "c\<lparr>variables := variables c @ [e]\<rparr> = add_member Variable e c"
  by (simp_all add: add_member_def)

lemma member_adds_one:
  assumes "ProcessConcept_member tokens pos c = Inr (c', p1)"
  shows "\<exists>k e. c' = add_member k e c
           \<and> ProcessConcept_member tokens pos c0 = Inr (add_member k e c0, p1)"
  using assms unfolding ProcessConcept_member_def
  by (auto simp: Let_def add_member_folds split: if_splits sum.splits prod.splits; blast)

lemma add_members_Cons: "add_members (m # ms) c = add_members ms (add_member (fst m) (snd m) c)"
  by (simp add: add_members_def)

lemma add_members_Nil: "add_members [] c = c"
  by (simp add: add_members_def)

lemma add_member_fields:
  "typedefs (add_member k e c) = typedefs c @ of_kind Typedef [(k, e)]"
  "functions' (add_member k e c) = functions' c @ of_kind Function [(k, e)]"
  "variables (add_member k e c) = variables c @ of_kind Variable [(k, e)]"
  "name (add_member k e c) = name c"
  "base_name (add_member k e c) = base_name c"
  by (cases k; simp add: add_member_def of_kind_def)+

lemma of_kind_Cons: "of_kind k (m # ms) = of_kind k [m] @ of_kind k ms"
  by (simp add: of_kind_def)

lemma add_members_fields:
  "typedefs (add_members ms c) = typedefs c @ of_kind Typedef ms
   \<and> functions' (add_members ms c) = functions' c @ of_kind Function ms
   \<and> variables (add_members ms c) = variables c @ of_kind Variable ms
   \<and> name (add_members ms c) = name c \<and> base_name (add_members ms c) = base_name c"
proof (induction ms arbitrary: c)
  case Nil
  show ?case by (simp add: add_members_Nil of_kind_def)
next
  case (Cons m ms)
  obtain k e where m: "m = (k, e)" by (cases m)
  show ?case
    unfolding add_members_Cons
    by (simp add: Cons.IH m add_member_fields of_kind_Cons [of _ "(k, e)" ms])
qed

lemma of_kind_partition:
  "length (of_kind Typedef ms) + length (of_kind Function ms) + length (of_kind Variable ms)
     = length ms"
proof (induction ms)
  case Nil
  show ?case by (simp add: of_kind_def)
next
  case (Cons m ms)
  then show ?case
    by (cases "fst m") (simp_all add: of_kind_def)
qed

lemma loop_adds_declared_members:
  "ProcessConcept_loop tokens pos c = Inr (c', q) \<Longrightarrow>
     \<exists>ms. declared_members tokens pos ms q \<and> c' = add_members ms c"
proof (induction "length tokens - pos" arbitrary: pos c rule: less_induct)
  case less
  show ?case
  proof (cases "AsChar tokens (int pos) = CHR ''}''")
    case True
    with less.prems have "c' = c" "q = pos"
      by (subst (asm) ProcessConcept_loop.simps; simp)+
    with True show ?thesis
      using declared_members.no_more [of tokens pos] add_members_Nil by metis
  next
    case False
    with less.prems obtain c1 p1 where
      m: "ProcessConcept_member tokens pos c = Inr (c1, p1)"
      and l: "ProcessConcept_loop tokens p1 c1 = Inr (c', q)"
      by (subst (asm) ProcessConcept_loop.simps) (auto split: sum.splits)
    from member_adds_one [OF m, of new_AST_Concept] obtain k e where
      ke: "c1 = add_member k e c"
          "ProcessConcept_member tokens pos new_AST_Concept
             = Inr (add_member k e new_AST_Concept, p1)"
      by blast
    from ProcessConcept_member_advances [OF m]
    have "length tokens - p1 < length tokens - pos" by arith
    from less.hyps [OF this l] obtain ms where
      ms: "declared_members tokens p1 ms q" "c' = add_members ms c1"
      by blast
    from declared_members.one_more [OF False ke(2) ms(1)]
    have "declared_members tokens pos ((k, e) # ms) q" .
    moreover have "c' = add_members ((k, e) # ms) c"
      using ms(2) ke(1) by (simp add: add_members_Cons)
    ultimately show ?thesis by blast
  qed
qed

text \<open>
  C8. When the members of a concept have been scanned, each of the declared members, in
  the order of the source, has been appended to the collection of its kind and to no
  other: every collection is what it was, followed by the members of its kind in their
  relative source order, and the three take up all the members.
\<close>

theorem members_kept_in_source_order:
  assumes "ProcessConcept_loop tokens pos c = Inr (c', q)"
  shows "\<exists>ms. declared_members tokens pos ms q
           \<and> typedefs c' = typedefs c @ of_kind Typedef ms
           \<and> functions' c' = functions' c @ of_kind Function ms
           \<and> variables c' = variables c @ of_kind Variable ms
           \<and> length (of_kind Typedef ms) + length (of_kind Function ms)
               + length (of_kind Variable ms) = length ms"
proof -
  from loop_adds_declared_members [OF assms] obtain ms where
    "declared_members tokens pos ms q" "c' = add_members ms c"
    by blast
  with add_members_fields [of ms c] of_kind_partition [of ms] show ?thesis
    by blast
qed

theorem members_kept_in_source_order_witness:
  "ProcessConcept_loop ex_members 1 new_AST_Concept
     = Inr (\<lparr>name = [], base_name = [],
              typedefs = [element ''T'' ''int ;'' [], element ''U'' ''T ;'' []],
              variables = [element ''a'' ''int'' [], element ''b'' ''int'' []],
              functions' = [element ''f'' ''void'' ''required'']\<rparr>, 24)
   \<and> declared_members ex_members 1
        [(Variable, element ''a'' ''int'' []), (Typedef, element ''T'' ''int ;'' []),
         (Function, element ''f'' ''void'' ''required''), (Variable, element ''b'' ''int'' []),
         (Typedef, element ''U'' ''T ;'' [])] 24
   \<and> (\<exists>ms. declared_members ex_members 1 ms 24
         \<and> [element ''T'' ''int ;'' [], element ''U'' ''T ;'' []] = of_kind Typedef ms
         \<and> [element ''f'' ''void'' ''required''] = of_kind Function ms
         \<and> [element ''a'' ''int'' [], element ''b'' ''int'' []] = of_kind Variable ms)"
proof -
  have l: "ProcessConcept_loop ex_members 1 new_AST_Concept
     = Inr (\<lparr>name = [], base_name = [],
              typedefs = [element ''T'' ''int ;'' [], element ''U'' ''T ;'' []],
              variables = [element ''a'' ''int'' [], element ''b'' ''int'' []],
              functions' = [element ''f'' ''void'' ''required'']\<rparr>, 24)"
    by code_simp
  have d5: "declared_members ex_members 24 [] 24"
    by (rule declared_members.no_more) code_simp
  have d4: "declared_members ex_members 19 [(Typedef, element ''U'' ''T ;'' [])] 24"
    by (rule declared_members.one_more [OF _ _ d5]; code_simp)
  have d3: "declared_members ex_members 16
              [(Variable, element ''b'' ''int'' []), (Typedef, element ''U'' ''T ;'' [])] 24"
    by (rule declared_members.one_more [OF _ _ d4]; code_simp)
  have d2: "declared_members ex_members 9
              [(Function, element ''f'' ''void'' ''required''), (Variable, element ''b'' ''int'' []),
               (Typedef, element ''U'' ''T ;'' [])] 24"
    by (rule declared_members.one_more [OF _ _ d3]; code_simp)
  have d1: "declared_members ex_members 4
              [(Typedef, element ''T'' ''int ;'' []),
               (Function, element ''f'' ''void'' ''required''), (Variable, element ''b'' ''int'' []),
               (Typedef, element ''U'' ''T ;'' [])] 24"
    by (rule declared_members.one_more [OF _ _ d2]; code_simp)
  have d0: "declared_members ex_members 1
        [(Variable, element ''a'' ''int'' []), (Typedef, element ''T'' ''int ;'' []),
         (Function, element ''f'' ''void'' ''required''), (Variable, element ''b'' ''int'' []),
         (Typedef, element ''U'' ''T ;'' [])] 24"
    by (rule declared_members.one_more [OF _ _ d1]; code_simp)
  from members_kept_in_source_order [OF l]
  have "\<exists>ms. declared_members ex_members 1 ms 24
         \<and> [element ''T'' ''int ;'' [], element ''U'' ''T ;'' []] = of_kind Typedef ms
         \<and> [element ''f'' ''void'' ''required''] = of_kind Function ms
         \<and> [element ''a'' ''int'' [], element ''b'' ''int'' []] = of_kind Variable ms"
    by (auto simp: new_AST_Concept_def)
  with l d0 show ?thesis by blast
qed

section \<open>The entry point and the end of the input\<close>

text \<open>
  C9. The claim: \<^verbatim>\<open>Process\<close> parses from token 0. The code never gives the cursor a value:
  the parse starts wherever the variable happens to point. On the nested namespaces of
  section 8, a cursor at 0 gives the whole tree, a cursor at 3 only the inner namespace,
  and a cursor at the end nothing at all.
\<close>

theorem Process_starts_where_the_cursor_happens_to_be:
  "Process ex_nested 0
     = Inr [AST_Namespace ''A'' [AST_Namespace ''B'' [AST_Using ''X'' ''int ;'']]]
   \<and> Process ex_nested 3 = Inr [AST_Namespace ''B'' [AST_Using ''X'' ''int ;'']]
   \<and> Process ex_nested 13 = Inr []"
  by code_simp

text \<open>Outside the sequence every positional helper answers without reading a token.\<close>

lemma helpers_total_outside_range:
  "\<not> HasToken tokens pos \<Longrightarrow>
     \<not> IsID tokens pos \<and> \<not> IsNumber tokens pos \<and> \<not> IsString tokens pos \<and> \<not> IsPP tokens pos
     \<and> AsChar tokens pos = CHR 0x00 \<and> AsLexeme tokens pos = []"
  by (simp add: IsID_def IsNumber_def IsString_def IsPP_def AsChar_def AsLexeme_def)

lemma ProcessType_outside:
  "ProcessType tokens (length tokens + k) = Inl (OutOfRange (length tokens + k))"
proof -
  have "AsLexeme tokens (int (length tokens + k)) = []"
    by (simp add: AsLexeme_def HasToken_def)
  then have "ProcessType_loop tokens (length tokens + k) = Inl (OutOfRange (length tokens + k))"
    by (subst ProcessType_loop.simps) simp
  then show ?thesis
    by (simp add: ProcessType_def AsLexeme_def HasToken_def)
qed

text \<open>
  C10. The claim: at the end of the input \<^verbatim>\<open>ProcessType\<close> reports that it expects a type,
  without reading outside the tokens. The code builds the message from
  \<^verbatim>\<open>tokens[pos].lexeme\<close> before \<^verbatim>\<open>RequireID\<close> is called: with the cursor at or past
  the end of any token sequence, that read is out of range and no diagnostic is reached.
\<close>

theorem ProcessType_reads_past_the_end:
  "ProcessType tokens (length tokens + k) = Inl (OutOfRange (length tokens + k))
   \<and> ProcessType [] 0 = Inl (OutOfRange 0)"
  using ProcessType_outside [of tokens k] ProcessType_outside [of "[]" 0] by simp

end
